theory Spec2Isabelle
  imports Complex_Main "HOL-Library.Multiset"
begin

section \<open>Errors, random draws and array indexing\<close>

text \<open>
  The Python exceptions the modelled code can raise. The repository defines no exception
  class of its own; every failure is one raised by the interpreter or by a library call.
\<close>

datatype error = ValueError | IndexError | ZeroDivisionError

text \<open>
  \<^verbatim>\<open>random.sample(range(n), k)\<close>: raises \<^verbatim>\<open>ValueError\<close> unless \<open>0 \<le> k \<le> n\<close>, and
  otherwise returns \<open>k\<close> distinct elements of \<open>range(n)\<close>. The list that the ambient
  generator produces is passed in as \<open>draw\<close>; \<open>is_sample n k draw\<close> says that it is a
  list the library can return.
\<close>

definition random_sample :: "nat \<Rightarrow> int \<Rightarrow> nat list \<Rightarrow> error + nat list" where
  "random_sample n k draw = (if k < 0 \<or> int n < k then Inl ValueError else Inr draw)"

definition is_sample :: "nat \<Rightarrow> nat \<Rightarrow> nat list \<Rightarrow> bool" where
  "is_sample n k draw \<longleftrightarrow> length draw = k \<and> distinct draw \<and> list_all (\<lambda>i. i < n) draw"

text \<open>
  A two-dimensional numpy array: its shape and its cells. \<open>np_index\<close> is numpy's index
  normalisation along one axis of extent \<open>n\<close>: a negative index counts from the end, and
  an index outside \<open>[-n, n)\<close> raises \<^verbatim>\<open>IndexError\<close>.
\<close>

record 'd matrix =
  nrows :: nat
  ncols :: nat
  cell :: "nat \<Rightarrow> nat \<Rightarrow> 'd"

definition np_index :: "nat \<Rightarrow> int \<Rightarrow> error + nat" where
  "np_index n i =
     (if 0 \<le> i \<and> i < int n then Inr (nat i)
      else if - int n \<le> i \<and> i < 0 then Inr (nat (i + int n))
      else Inl IndexError)"

definition mat_get :: "'d matrix \<Rightarrow> int \<Rightarrow> int \<Rightarrow> error + 'd" where
  "mat_get D i j =
     (case np_index (nrows D) i of
        Inl e \<Rightarrow> Inl e
      | Inr r \<Rightarrow> (case np_index (ncols D) j of
                   Inl e \<Rightarrow> Inl e
                 | Inr c \<Rightarrow> Inr (cell D r c)))"

section \<open>Tour length and fitness (utils/metrics.py)\<close>



text \<open>
  \<^verbatim>\<open>tsp_fitness_creator(distances)\<close> returns the closure \<^verbatim>\<open>fitness\<close>; the closure runs
  its own copy of the loop over \<open>tsp.value\<close> and returns the negated accumulator.
\<close>

fun fitness_loop :: "'d::{zero,plus} matrix \<Rightarrow> int list \<Rightarrow> nat list \<Rightarrow> 'd \<Rightarrow> error + 'd" where
  "fitness_loop distances v [] route_length = Inr route_length"
| "fitness_loop distances v (i # rest) route_length =
     (let from_city = v ! i;
          to_city = v ! ((i + 1) mod length v)
      in case mat_get distances from_city to_city of
           Inl e \<Rightarrow> Inl e
         | Inr d \<Rightarrow> fitness_loop distances v rest (route_length + d))"

definition tsp_fitness_creator :: "'d::{zero,plus,uminus} matrix \<Rightarrow> int list \<Rightarrow> error + 'd" where
  "tsp_fitness_creator distances v =
     (case fitness_loop distances v [0 ..< length v] 0 of
        Inl e \<Rightarrow> Inl e
      | Inr route_length \<Rightarrow> Inr (- route_length))"

section \<open>The TSP individual (algorithms/tsp.py)\<close>

text \<open>
  The value of a TSP individual is an array of cities. \<^verbatim>\<open>pair\<close> first evaluates
  \<^verbatim>\<open>start, end = sorted(random.sample(range(size), 2))\<close> (\<open>cut_points\<close>: unpacking
  anything but two values raises \<^verbatim>\<open>ValueError\<close>), then copies \<open>self.value[start:end]\<close>
  and fills the rest from \<open>other\<close>. The parameter record \<^verbatim>\<open>pair_params\<close> is never
  read by the source and is left out.
\<close>

definition cut_points :: "nat \<Rightarrow> nat list \<Rightarrow> error + nat \<times> nat" where
  "cut_points n draw =
     (case random_sample n 2 draw of
        Inl e \<Rightarrow> Inl e
      | Inr s \<Rightarrow>
          (case sort s of
             [start, end] \<Rightarrow> Inr (start, end)
           | _ \<Rightarrow> Inl ValueError))"

definition pair :: "'c list \<Rightarrow> 'c list \<Rightarrow> nat list \<Rightarrow> error + 'c list" where
  "pair self other draw =
     (case cut_points (length self) draw of
        Inl e \<Rightarrow> Inl e
      | Inr (start, end) \<Rightarrow>
          (let child_p1 = take (end - start) (drop start self);
               child_p2 = filter (\<lambda>city. city \<notin> set child_p1) other
           in Inr (take start child_p2 @ child_p1 @ drop start child_p2)))"

text \<open>
  \<^verbatim>\<open>mutate\<close>: \<open>u\<close> is the outcome of \<^verbatim>\<open>random.random()\<close>, \<open>draw\<close> the outcome of the
  sample of two positions, which is only drawn when \<open>u < rate\<close>. The result is the new
  value of the individual together with the returned flag.
\<close>

definition mutate :: "'r::linorder \<Rightarrow> 'c list \<Rightarrow> 'r \<times> nat list \<Rightarrow> error + ('c list \<times> bool)" where
  "mutate rate v rnd =
     (if fst rnd < rate then
        (case random_sample (length v) 2 (snd rnd) of
           Inl e \<Rightarrow> Inl e
         | Inr [i, j] \<Rightarrow> Inr (v[i := v ! j, j := v ! i], True)
         | Inr _ \<Rightarrow> Inl ValueError)
      else Inr (v, False))"

text \<open>
  \<^verbatim>\<open>_random_init\<close> returns \<^verbatim>\<open>np.random.permutation(n_cities)\<close>: an array that holds
  each of \<open>0, ..., n_cities - 1\<close> once. \<open>is_permutation n v\<close> says that \<open>v\<close> is such an array.
\<close>

definition is_permutation :: "nat \<Rightarrow> int list \<Rightarrow> bool" where
  "is_permutation n v \<longleftrightarrow> sort v = map int [0 ..< n]"

section \<open>Population (algorithms/base.py)\<close>

text \<open>
  A population holds the fitness function it was built with and the list of its
  individuals. The fitness function is any callable, so it may raise.
\<close>

record ('ind, 'f) population =
  fitness :: "'ind \<Rightarrow> error + 'f"
  individuals :: "'ind list"

text \<open>
  \<^verbatim>\<open>list.sort(key=...)\<close>: the key of every element is computed first, in list order (an
  exception of a key call ends the sort), then the list is sorted by key, ascending and
  stably.
\<close>

fun eval_keys :: "('a \<Rightarrow> error + 'k) \<Rightarrow> 'a list \<Rightarrow> error + ('k \<times> 'a) list" where
  "eval_keys key [] = Inr []"
| "eval_keys key (x # xs) =
     (case key x of
        Inl e \<Rightarrow> Inl e
      | Inr k \<Rightarrow> (case eval_keys key xs of
                   Inl e \<Rightarrow> Inl e
                 | Inr kxs \<Rightarrow> Inr ((k, x) # kxs)))"

definition list_sort :: "('a \<Rightarrow> error + 'k::linorder) \<Rightarrow> 'a list \<Rightarrow> error + 'a list" where
  "list_sort key xs =
     (case eval_keys key xs of
        Inl e \<Rightarrow> Inl e
      | Inr kxs \<Rightarrow> Inr (map snd (sort_key fst kxs)))"

text \<open>
  \<^verbatim>\<open>Population.__init__\<close>: \<open>new_individual i\<close> is the \<open>i\<close>-th individual that the class
  constructor builds from the random source; \<open>range(size)\<close> is empty for \<open>size \<le> 0\<close>.
\<close>

definition Population_init ::
    "int \<Rightarrow> ('ind \<Rightarrow> error + 'f::linorder) \<Rightarrow> (nat \<Rightarrow> 'ind) \<Rightarrow> error + ('ind, 'f) population" where
  "Population_init psize fit new_individual =
     (case list_sort fit (map new_individual [0 ..< nat psize]) of
        Inl e \<Rightarrow> Inl e
      | Inr sorted_inds \<Rightarrow> Inr \<lparr>fitness = fit, individuals = sorted_inds\<rparr>)"

text \<open>
  \<^verbatim>\<open>replace\<close>: extend, sort, keep \<open>self.individuals[-size:]\<close>. In Python the slice
  \<open>xs[-0:]\<close> is the whole list.
\<close>

definition replace ::
    "('ind, 'f::linorder) population \<Rightarrow> 'ind list \<Rightarrow> error + ('ind, 'f) population" where
  "replace P new_individuals =
     (let psize = length (individuals P) in
      case list_sort (fitness P) (individuals P @ new_individuals) of
        Inl e \<Rightarrow> Inl e
      | Inr sorted_inds \<Rightarrow>
          Inr (P\<lparr>individuals :=
                 (if psize = 0 then sorted_inds
                  else drop (length sorted_inds - psize) sorted_inds)\<rparr>))"

text \<open>\<^verbatim>\<open>get_best_individual\<close>: \<open>self.individuals[-1]\<close>, an \<^verbatim>\<open>IndexError\<close> on the empty list.\<close>

definition get_best_individual :: "('ind, 'f) population \<Rightarrow> error + 'ind" where
  "get_best_individual P =
     (case individuals P of [] \<Rightarrow> Inl IndexError | _ \<Rightarrow> Inr (last (individuals P)))"

text \<open>
  \<^verbatim>\<open>tournament_selection\<close>: the loop over \<open>contestants_indices[1:]\<close> keeps \<open>best_idx\<close> and
  moves it only on a strictly greater fitness. \<open>contestants_indices[0]\<close> raises
  \<^verbatim>\<open>IndexError\<close> when the sample is empty.
\<close>

fun tournament_loop ::
    "('ind \<Rightarrow> error + 'f::linorder) \<Rightarrow> 'ind list \<Rightarrow> nat list \<Rightarrow> nat \<Rightarrow> error + nat" where
  "tournament_loop fit inds [] best_idx = Inr best_idx"
| "tournament_loop fit inds (idx # rest) best_idx =
     (case fit (inds ! idx) of
        Inl e \<Rightarrow> Inl e
      | Inr a \<Rightarrow> (case fit (inds ! best_idx) of
                   Inl e \<Rightarrow> Inl e
                 | Inr b \<Rightarrow> tournament_loop fit inds rest (if a > b then idx else best_idx)))"

definition tournament_selection ::
    "('ind, 'f::linorder) population \<Rightarrow> int \<Rightarrow> nat list \<Rightarrow> error + 'ind" where
  "tournament_selection P tournament_size draw =
     (case random_sample (length (individuals P)) tournament_size draw of
        Inl e \<Rightarrow> Inl e
      | Inr [] \<Rightarrow> Inl IndexError
      | Inr (first # rest) \<Rightarrow>
          (case tournament_loop (fitness P) (individuals P) rest first of
             Inl e \<Rightarrow> Inl e
           | Inr best_idx \<Rightarrow> Inr (individuals P ! best_idx)))"

section \<open>Evolution (algorithms/base.py)\<close>

text \<open>
  The engine, with \<open>TSP\<close> as its individual class. \<open>pair_params\<close> holds \<^verbatim>\<open>alpha\<close> and
  \<open>mutate_params\<close> holds \<^verbatim>\<open>rate\<close>.
\<close>

record ('c, 'f, 'r) evolution =
  pair_params :: 'r
  mutate_params :: 'r
  pool :: "('c list, 'f) population"
  n_offsprings :: int
  tournament_size :: int

definition Evolution_init ::
    "int \<Rightarrow> ('c list \<Rightarrow> error + 'f::linorder) \<Rightarrow> int \<Rightarrow> 'r \<Rightarrow> 'r \<Rightarrow> (nat \<Rightarrow> 'c list) \<Rightarrow> int
       \<Rightarrow> error + ('c, 'f, 'r) evolution" where
  "Evolution_init pool_size fit n_offs pair_ps mutate_ps new_individual tsize =
     (case Population_init pool_size fit new_individual of
        Inl e \<Rightarrow> Inl e
      | Inr P \<Rightarrow> Inr \<lparr>pair_params = pair_ps, mutate_params = mutate_ps, pool = P,
                      n_offsprings = n_offs, tournament_size = tsize\<rparr>)"

text \<open>
  The outcomes of the random source that one pass through the body of the loop of
  \<^verbatim>\<open>step\<close> consumes, in the order of the calls: the two tournament samples, the sample
  of cut points, the mutation coin and the sample of swap positions.
\<close>

record 'r draws =
  sample_parent1 :: "nat list"
  sample_parent2 :: "nat list"
  sample_cuts :: "nat list"
  mutation_coin :: 'r
  sample_swap :: "nat list"

text \<open>
  The \<^verbatim>\<open>while\<close> loop of \<^verbatim>\<open>step\<close>; \<open>rnd i\<close> are the draws used for the offspring that is
  appended at position \<open>i\<close> of the new list.
\<close>

function step_loop ::
    "('c, 'f::linorder, 'r::linorder) evolution \<Rightarrow> (nat \<Rightarrow> 'r draws) \<Rightarrow> 'c list list \<Rightarrow> nat
       \<Rightarrow> error + ('c list list \<times> nat)" where
  "step_loop E rnd new_individuals mutation_count =
     (if length new_individuals < length (individuals (pool E)) then
        (let d = rnd (length new_individuals) in
         case tournament_selection (pool E) (tournament_size E) (sample_parent1 d) of
           Inl e \<Rightarrow> Inl e
         | Inr parent1 \<Rightarrow>
         (case tournament_selection (pool E) (tournament_size E) (sample_parent2 d) of
           Inl e \<Rightarrow> Inl e
         | Inr parent2 \<Rightarrow>
         (case pair parent1 parent2 (sample_cuts d) of
           Inl e \<Rightarrow> Inl e
         | Inr offspring \<Rightarrow>
         (case mutate (mutate_params E) offspring (mutation_coin d, sample_swap d) of
           Inl e \<Rightarrow> Inl e
         | Inr (offspring', fired) \<Rightarrow>
             step_loop E rnd (new_individuals @ [offspring'])
               (if fired then mutation_count + 1 else mutation_count)))))
      else Inr (new_individuals, mutation_count))"
  by pat_completeness auto
termination
  by (relation "measure (\<lambda>(E, rnd, new_individuals, mutation_count).
        length (individuals (pool E)) - length new_individuals)") auto

definition step ::
    "('c, 'f::linorder, 'r::linorder) evolution \<Rightarrow> (nat \<Rightarrow> 'r draws)
       \<Rightarrow> error + (('c, 'f, 'r) evolution \<times> nat)" where
  "step E rnd =
     (case get_best_individual (pool E) of
        Inl e \<Rightarrow> Inl e
      | Inr best \<Rightarrow>
          (case step_loop E rnd [best] 0 of
             Inl e \<Rightarrow> Inl e
           | Inr (new_individuals, mutation_count) \<Rightarrow>
               Inr (E\<lparr>pool := (pool E)\<lparr>individuals := new_individuals\<rparr>\<rparr>, mutation_count)))"

section \<open>Distances and plotting (utils/metrics.py, utils/visualization.py)\<close>

text \<open>
  \<^verbatim>\<open>calculate_distances\<close>: an \<open>n \<times> n\<close> array of zeros whose off-diagonal cells are set to
  \<^verbatim>\<open>np.linalg.norm(np.array(cities[i]) - np.array(cities[j]))\<close>. Coordinates and distances
  are real numbers here.
\<close>

definition euclid :: "real \<times> real \<Rightarrow> real \<times> real \<Rightarrow> real" where
  "euclid a b = sqrt ((fst a - fst b) ^ 2 + (snd a - snd b) ^ 2)"

definition calculate_distances :: "(real \<times> real) list \<Rightarrow> real matrix" where
  "calculate_distances cities =
     \<lparr>nrows = length cities, ncols = length cities,
      cell = (\<lambda>i j. if i \<noteq> j then euclid (cities ! i) (cities ! j) else 0)\<rparr>"

text \<open>
  Indexing a Python list normalises the index as numpy does. \<open>get_all xs idxs\<close> is the
  comprehension \<^verbatim>\<open>[xs[i] for i in idxs]\<close>.
\<close>

definition py_get :: "'a list \<Rightarrow> int \<Rightarrow> error + 'a" where
  "py_get xs i = (case np_index (length xs) i of Inl e \<Rightarrow> Inl e | Inr k \<Rightarrow> Inr (xs ! k))"

fun get_all :: "'a list \<Rightarrow> int list \<Rightarrow> error + 'a list" where
  "get_all xs [] = Inr []"
| "get_all xs (i # rest) =
     (case py_get xs i of
        Inl e \<Rightarrow> Inl e
      | Inr x \<Rightarrow> (case get_all xs rest of Inl e \<Rightarrow> Inl e | Inr ys \<Rightarrow> Inr (x # ys)))"

text \<open>
  \<^verbatim>\<open>plot_route\<close> draws on the current figure and returns nothing; what matters here is
  where it raises: \<open>cities[city]\<close> for every city of the route, \<open>cities[route[0]]\<close>, and
  \<open>city_names[city_idx]\<close> for every city of the route when \<open>city_names\<close> is not empty.
\<close>

definition plot_route :: "(real \<times> real) list \<Rightarrow> int list \<Rightarrow> string list \<Rightarrow> error + unit" where
  "plot_route cities route city_names =
     (case get_all cities route of
        Inl e \<Rightarrow> Inl e
      | Inr coords \<Rightarrow>
          (case route of
             [] \<Rightarrow> Inl IndexError
           | _ \<Rightarrow>
               (if city_names = [] then Inr ()
                else (case get_all city_names route of Inl e \<Rightarrow> Inl e | Inr labels \<Rightarrow> Inr ()))))"

section \<open>Run orchestration (algorithms/tsp.py)\<close>

text \<open>The decimal numeral of a natural number, \<^verbatim>\<open>str(i)\<close>.\<close>

fun str_nat :: "nat \<Rightarrow> string" where
  "str_nat n =
     (if n < 10 then [char_of (48 + n)]
      else str_nat (n div 10) @ [char_of (48 + n mod 10)])"

text \<open>
  The arguments of \<^verbatim>\<open>run_tsp_evolution\<close>, and the values of the ones that have a default.
\<close>

record run_args =
  cities :: "(real \<times> real) list"
  city_names :: "string list option"
  population_size :: int
  tournament_size_arg :: int
  mutation_rate :: real
  n_offsprings_arg :: int
  n_epochs :: int
  crossover_alpha :: real
  verbose :: bool

definition default_args :: "(real \<times> real) list \<Rightarrow> run_args" where
  "default_args cs =
     \<lparr>cities = cs, city_names = None, population_size = 100, tournament_size_arg = 5,
      mutation_rate = 1 / 100, n_offsprings_arg = 30, n_epochs = 500,
      crossover_alpha = 1 / 2, verbose = True\<rparr>"

text \<open>
  The returned dictionary, without its \<^verbatim>\<open>runtime\<close> entry (a difference of wall-clock
  readings). \<open>improvement\<close> is \<open>None\<close> where the floating-point quotient is not a number
  (numpy divides by a zero initial length without raising).
\<close>

record run_result =
  best_route :: "int list"
  best_length :: real
  improvement :: "real option"
  length_history :: "real list"
  improvements :: nat
  last_improvement :: nat
  total_mutations :: nat

text \<open>The variables that the epoch loop updates.\<close>

record run_state =
  evo :: "(int, real, real) evolution"
  cur_best_route :: "int list"
  best_lengths :: "real list"
  n_improvements :: nat
  last_improved :: nat
  mutations_total :: nat

text \<open>
  The body of \<^verbatim>\<open>for epoch in range(n_epochs)\<close>; \<open>rnd epoch\<close> are the draws of that epoch's
  step. After the append, \<open>best_lengths[-2]\<close> is the entry that was last before it.
\<close>

fun epoch_loop :: "(nat \<Rightarrow> nat \<Rightarrow> real draws) \<Rightarrow> nat list \<Rightarrow> run_state \<Rightarrow> error + run_state" where
  "epoch_loop rnd [] st = Inr st"
| "epoch_loop rnd (epoch # rest) st =
     (case step (evo st) (rnd epoch) of
        Inl e \<Rightarrow> Inl e
      | Inr (evo', mutations) \<Rightarrow>
     (case get_best_individual (pool evo') of
        Inl e \<Rightarrow> Inl e
      | Inr current_best \<Rightarrow>
     (case fitness (pool evo') current_best of
        Inl e \<Rightarrow> Inl e
      | Inr f \<Rightarrow>
          (let current_length = - f;
               improved = (current_length < last (best_lengths st))
           in epoch_loop rnd rest
                \<lparr>evo = evo',
                 cur_best_route = (if improved then current_best else cur_best_route st),
                 best_lengths = best_lengths st @ [current_length],
                 n_improvements = (if improved then n_improvements st + 1 else n_improvements st),
                 last_improved = (if improved then epoch else last_improved st),
                 mutations_total = mutations_total st + mutations\<rparr>))))"

text \<open>
  \<^verbatim>\<open>run_tsp_evolution\<close>. \<open>inits i\<close> is the \<open>i\<close>-th array that \<^verbatim>\<open>np.random.permutation\<close>
  returns while the population is built, \<open>rnd\<close> the draws of the steps. The result comes
  with the list of files that \<^verbatim>\<open>plt.savefig\<close> has written. Printing is not recorded,
  except that formatting the summary evaluates \<open>total_mutations / n_epochs\<close>. With no
  city at all the lengths are Python integers, and dividing by the integer \<open>0\<close> raises.
\<close>

definition run_tsp_evolution ::
    "run_args \<Rightarrow> (nat \<Rightarrow> int list) \<Rightarrow> (nat \<Rightarrow> nat \<Rightarrow> real draws)
       \<Rightarrow> error + (run_result \<times> string list)" where
  "run_tsp_evolution args inits rnd =
     (let n_cities = length (cities args);
          names = (case city_names args of
                     None \<Rightarrow> map str_nat [0 ..< n_cities]
                   | Some ns \<Rightarrow> ns);
          distances = calculate_distances (cities args);
          fit = tsp_fitness_creator distances
      in
      case Evolution_init (population_size args) fit (n_offsprings_arg args)
             (crossover_alpha args) (mutation_rate args) inits (tournament_size_arg args) of
        Inl e \<Rightarrow> Inl e
      | Inr evo0 \<Rightarrow>
     (case get_best_individual (pool evo0) of
        Inl e \<Rightarrow> Inl e
      | Inr best_individual \<Rightarrow>
     (case fitness (pool evo0) best_individual of
        Inl e \<Rightarrow> Inl e
      | Inr f0 \<Rightarrow>
     (let initial_length = - f0 in
      case epoch_loop rnd [0 ..< nat (n_epochs args)]
             \<lparr>evo = evo0, cur_best_route = best_individual, best_lengths = [initial_length],
              n_improvements = 0, last_improved = 0, mutations_total = 0\<rparr> of
        Inl e \<Rightarrow> Inl e
      | Inr st \<Rightarrow>
     (let final_length = last (best_lengths st) in
      if n_cities = 0 then Inl ZeroDivisionError
      else if verbose args \<and> n_epochs args = 0 then Inl ZeroDivisionError
      else
     (case plot_route (cities args) (cur_best_route st) names of
        Inl e \<Rightarrow> Inl e
      | Inr u1 \<Rightarrow>
     (case plot_route (cities args) (cur_best_route st) names of
        Inl e \<Rightarrow> Inl e
      | Inr u2 \<Rightarrow>
          Inr (\<lparr>best_route = cur_best_route st,
                best_length = final_length,
                improvement =
                  (if initial_length = 0 then None
                   else Some ((initial_length - final_length) / initial_length * 100)),
                length_history = best_lengths st,
                improvements = n_improvements st,
                last_improvement = last_improved st,
                total_mutations = mutations_total st\<rparr>,
               [''results/tsp_final_route.png'', ''results/tsp_length_history.png'']))))))))"

section \<open>A concrete run: four cities on a line\<close>

text \<open>
  Four cities at \<open>(0,0)\<close>, \<open>(1,0)\<close>, \<open>(2,0)\<close>, \<open>(3,0)\<close>, a population of two, tournaments of
  one. The generator first returns the permutations \<open>[0,1,2,3]\<close> (tour length 6) and
  \<open>[0,2,1,3]\<close> (tour length 8). In epoch \<open>e\<close> both tournaments sample index \<open>e mod 2\<close>, the
  cut points are 0 and 1, and the mutation coin is \<open>1/2\<close>. All distances are small
  integers, so floating-point arithmetic is exact on this input.
\<close>

definition line_cities :: "(real \<times> real) list" where
  "line_cities = [(0, 0), (1, 0), (2, 0), (3, 0)]"

definition line_inits :: "nat \<Rightarrow> int list" where
  "line_inits i = (if i = 0 then [0, 1, 2, 3] else [0, 2, 1, 3])"

definition line_rnd :: "nat \<Rightarrow> nat \<Rightarrow> real draws" where
  "line_rnd epoch i =
     \<lparr>sample_parent1 = [epoch mod 2], sample_parent2 = [epoch mod 2], sample_cuts = [0, 1],
      mutation_coin = 1 / 2, sample_swap = [0, 1]\<rparr>"

definition line_fit :: "int list \<Rightarrow> error + real" where
  "line_fit = tsp_fitness_creator (calculate_distances line_cities)"

text \<open>The engine with the given individuals in its pool and a tournament size.\<close>

definition line_gen :: "int list list \<Rightarrow> int \<Rightarrow> (int, real, real) evolution" where
  "line_gen inds tsize =
     \<lparr>pair_params = 1 / 2, mutate_params = 1 / 100,
      pool = \<lparr>fitness = line_fit, individuals = inds\<rparr>,
      n_offsprings = 30, tournament_size = tsize\<rparr>"

section \<open>Fitness against route length\<close>



section \<open>Ordered crossover\<close>

lemma is_sample_two:
  assumes "is_sample n 2 draw"
  obtains a b where "draw = [a, b]" "a \<noteq> b" "a < n" "b < n"
proof -
  from assms have "length draw = 2" by (simp add: is_sample_def)
  then obtain a b where d: "draw = [a, b]"
    by (cases draw; cases "tl draw") auto
  with assms show thesis using that by (auto simp: is_sample_def)
qed

lemma cut_points_sample:
  assumes "is_sample n 2 draw"
  shows "\<exists>start end. cut_points n draw = Inr (start, end) \<and> start < end \<and> end \<le> n - 1
           \<and> set draw = {start, end}"
proof -
  from assms obtain a b where d: "draw = [a, b]" "a \<noteq> b" "a < n" "b < n"
    by (rule is_sample_two)
  then show ?thesis
    by (cases "a < b") (auto simp: cut_points_def random_sample_def)
qed

text \<open>
  The cities of the other parent that are left once the copied segment is taken out:
  there are exactly as many as the child has positions outside the segment.
\<close>

lemma length_remaining:
  assumes "distinct p1" "distinct p2" "set p2 = set p1" "start \<le> end" "end \<le> length p1"
  shows "length (filter (\<lambda>city. city \<notin> set (take (end - start) (drop start p1))) p2)
           = length p1 - (end - start)"
proof -
  let ?seg = "take (end - start) (drop start p1)"
  have seg_sub: "set ?seg \<subseteq> set p1"
    by (meson in_set_dropD in_set_takeD subsetI)
  have dseg: "distinct ?seg" using assms(1) by simp
  have lseg: "length ?seg = end - start" using assms(4,5) by simp
  have "length (filter (\<lambda>city. city \<notin> set ?seg) p2) = card {x \<in> set p2. x \<notin> set ?seg}"
    using assms(2) by (simp add: distinct_length_filter Collect_conj_eq Int_commute)
  also have "{x \<in> set p2. x \<notin> set ?seg} = set p1 - set ?seg"
    using assms(3) by auto
  also have "card (set p1 - set ?seg) = card (set p1) - card (set ?seg)"
    using seg_sub by (simp add: card_Diff_subset)
  also have "\<dots> = length p1 - (end - start)"
    using assms(1) dseg lseg by (simp add: distinct_card)
  finally show ?thesis .
qed

lemma pair_child:
  assumes "distinct p1" "distinct p2" "set p2 = set p1" "start \<le> end" "end \<le> length p1"
  defines "seg \<equiv> take (end - start) (drop start p1)"
  defines "rest \<equiv> filter (\<lambda>city. city \<notin> set seg) p2"
  defines "child \<equiv> take start rest @ seg @ drop start rest"
  shows "distinct child" "set child = set p1" "length child = length p1"
    "take (end - start) (drop start child) = seg"
    "take start child @ drop end child = rest"
proof -
  have lrest: "length rest = length p1 - (end - start)"
    unfolding rest_def seg_def using assms(1-5) by (rule length_remaining)
  have lseg: "length seg = end - start" using assms(4,5) by (simp add: seg_def)
  have start_le: "start \<le> length rest" using lrest assms(4,5) by simp
  have seg_sub: "set seg \<subseteq> set p1"
    unfolding seg_def by (meson in_set_dropD in_set_takeD subsetI)
  have dseg: "distinct seg" using assms(1) by (simp add: seg_def)
  have drest: "distinct rest" using assms(2) by (simp add: rest_def)
  have disj: "set rest \<inter> set seg = {}" by (auto simp: rest_def)
  have set_rest: "set rest = set p1 - set seg" using assms(3) by (auto simp: rest_def)
  have split_rest: "set (take start rest) \<union> set (drop start rest) = set rest"
    by (metis append_take_drop_id set_append)
  have td: "set (take start rest) \<inter> set (drop start rest) = {}"
    using drest by (metis append_take_drop_id distinct_append)
  show "distinct child"
    using dseg drest disj split_rest td unfolding child_def
    by (auto dest: in_set_takeD in_set_dropD)
  show "set child = set p1"
    using split_rest set_rest seg_sub unfolding child_def by auto
  show "length child = length p1"
    using lrest lseg start_le assms(4,5) unfolding child_def by simp
  show "take (end - start) (drop start child) = seg"
    using start_le lseg unfolding child_def by simp
  show "take start child @ drop end child = rest"
    using start_le lseg assms(4) unfolding child_def by simp
qed



text \<open>
  Claim C4. For parents \<open>p1\<close>, \<open>p2\<close> that are permutations of the same city set and for
  every pair of cut points the operator can draw, \<open>pair\<close> returns a child that is a
  permutation of that set (no duplicate, no omission, same length), that carries the
  segment \<open>p1[start:end]\<close> at positions \<open>start..end\<close>, and whose other positions hold the
  remaining cities in the order in which \<open>p2\<close> lists them.
\<close>

theorem pair_is_permutation:
  assumes "distinct p1" "distinct p2" "set p2 = set p1" "is_sample (length p1) 2 draw"
  shows "\<exists>start end child.
           cut_points (length p1) draw = Inr (start, end) \<and> pair p1 p2 draw = Inr child
         \<and> distinct child \<and> set child = set p1 \<and> length child = length p1
         \<and> take (end - start) (drop start child) = take (end - start) (drop start p1)
         \<and> take start child @ drop end child
             = filter (\<lambda>city. city \<notin> set (take (end - start) (drop start p1))) p2"
proof -
  from cut_points_sample [OF assms(4)] obtain start "end" where
    c: "cut_points (length p1) draw = Inr (start, end)" "start < end" "end \<le> length p1 - 1"
    by blast
  from c(2,3) have le: "start \<le> end" "end \<le> length p1" by arith+
  let ?seg = "take (end - start) (drop start p1)"
  let ?rest = "filter (\<lambda>city. city \<notin> set ?seg) p2"
  let ?child = "take start ?rest @ ?seg @ drop start ?rest"
  have p: "pair p1 p2 draw = Inr ?child"
    by (simp add: pair_def c(1) Let_def)
  note ch = pair_child [OF assms(1-3) le]
  from c(1) p ch show ?thesis by blast
qed

theorem pair_is_permutation_witness:
  "distinct [0, 1, 2, 3 :: int] \<and> distinct [3, 2, 1, 0 :: int]
   \<and> set [3, 2, 1, 0 :: int] = set [0, 1, 2, 3] \<and> is_sample (length [0, 1, 2, 3 :: int]) 2 [3, 1]
   \<and> pair [0, 1, 2, 3 :: int] [3, 2, 1, 0] [3, 1] = Inr [3, 1, 2, 0]
   \<and> (\<exists>start end child.
           cut_points (length [0, 1, 2, 3 :: int]) [3, 1] = Inr (start, end)
         \<and> pair [0, 1, 2, 3 :: int] [3, 2, 1, 0] [3, 1] = Inr child
         \<and> distinct child \<and> set child = set [0, 1, 2, 3 :: int]
         \<and> length child = length [0, 1, 2, 3 :: int]
         \<and> take (end - start) (drop start child) = take (end - start) (drop start [0, 1, 2, 3 :: int])
         \<and> take start child @ drop end child
             = filter (\<lambda>city. city \<notin> set (take (end - start) (drop start [0, 1, 2, 3 :: int])))
                 [3, 2, 1, 0])"
proof -
  have h1: "distinct [0, 1, 2, 3 :: int]" by simp
  have h2: "distinct [3, 2, 1, 0 :: int]" by simp
  have h3: "set [3, 2, 1, 0 :: int] = set [0, 1, 2, 3]" by auto
  have h4: "is_sample (length [0, 1, 2, 3 :: int]) 2 [3, 1]" by (simp add: is_sample_def)
  have v: "pair [0, 1, 2, 3 :: int] [3, 2, 1, 0] [3, 1] = Inr [3, 1, 2, 0]"
    by (simp add: pair_def cut_points_def random_sample_def)
  from h1 h2 h3 h4 v pair_is_permutation [OF h1 h2 h3 h4] show ?thesis by blast
qed

section \<open>Swap mutation\<close>



text \<open>
  Outside the hypothesis of the theorem above: a value with fewer than two positions has
  no sample of two positions, and a mutation that fires on it raises the sampling error.
\<close>

lemma mutate_short_value:
  assumes "length v < 2" "u < rate"
  shows "mutate rate v (u, draw) = Inl ValueError"
  using assms by (simp add: mutate_def random_sample_def)

section \<open>Tournament selection\<close>

lemma tournament_loop_first_max:
  assumes "\<forall>i\<in>set (pre @ rest). i < length inds"
      and "\<forall>x\<in>set inds. fit x = Inr (g x)"
      and "p < length pre"
      and "\<forall>q<length pre. g (inds ! (pre ! q)) \<le> g (inds ! (pre ! p))"
      and "\<forall>q<p. g (inds ! (pre ! q)) < g (inds ! (pre ! p))"
  shows "\<exists>p'<length (pre @ rest).
           tournament_loop fit inds rest (pre ! p) = Inr ((pre @ rest) ! p')
         \<and> (\<forall>q<length (pre @ rest). g (inds ! ((pre @ rest) ! q)) \<le> g (inds ! ((pre @ rest) ! p')))
         \<and> (\<forall>q<p'. g (inds ! ((pre @ rest) ! q)) < g (inds ! ((pre @ rest) ! p')))"
  using assms
proof (induction rest arbitrary: pre p)
  case Nil
  then show ?case by auto
next
  case (Cons idx rest)
  let ?pre = "pre @ [idx]"
  have in_range: "\<forall>i\<in>set (?pre @ rest). i < length inds"
    using Cons.prems(1) by simp
  have idx: "idx < length inds" and best: "pre ! p < length inds"
    using Cons.prems(1,3) by auto
  have fa: "fit (inds ! idx) = Inr (g (inds ! idx))"
    and fb: "fit (inds ! (pre ! p)) = Inr (g (inds ! (pre ! p)))"
    using Cons.prems(2) idx best by auto
  show ?case
  proof (cases "g (inds ! idx) > g (inds ! (pre ! p))")
    case True
    let ?p = "length pre"
    have 1: "?p < length ?pre" by simp
    have 2: "\<forall>q<length ?pre. g (inds ! (?pre ! q)) \<le> g (inds ! (?pre ! ?p))"
    proof (intro allI impI)
      fix q assume "q < length ?pre"
      then consider "q < length pre" | "q = length pre" by fastforce
      then show "g (inds ! (?pre ! q)) \<le> g (inds ! (?pre ! ?p))"
      proof cases
        case 1
        with Cons.prems(4) True show ?thesis by (force simp: nth_append)
      next
        case 2
        then show ?thesis by simp
      qed
    qed
    have 3: "\<forall>q<?p. g (inds ! (?pre ! q)) < g (inds ! (?pre ! ?p))"
      using Cons.prems(4) True by (force simp: nth_append)
    from Cons.IH [OF in_range Cons.prems(2) 1 2 3]
    show ?thesis using True fa fb by simp
  next
    case False
    have 1: "p < length ?pre" using Cons.prems(3) by simp
    have 2: "\<forall>q<length ?pre. g (inds ! (?pre ! q)) \<le> g (inds ! (?pre ! p))"
    proof (intro allI impI)
      fix q assume "q < length ?pre"
      then consider "q < length pre" | "q = length pre" by fastforce
      then show "g (inds ! (?pre ! q)) \<le> g (inds ! (?pre ! p))"
      proof cases
        case 1
        with Cons.prems(3,4) show ?thesis by (simp add: nth_append)
      next
        case 2
        with False Cons.prems(3) show ?thesis by (simp add: nth_append)
      qed
    qed
    have 3: "\<forall>q<p. g (inds ! (?pre ! q)) < g (inds ! (?pre ! p))"
      using Cons.prems(3,5) by (simp add: nth_append)
    from Cons.IH [OF in_range Cons.prems(2) 1 2 3]
    show ?thesis using False fa fb Cons.prems(3) by (simp add: nth_append)
  qed
qed

text \<open>
  Claim C5. For a population of size \<open>n\<close>, a tournament size \<open>k\<close> with \<open>1 \<le> k \<le> n\<close> and
  every sample of \<open>k\<close> distinct indices that the generator can return,
  \<open>tournament_selection\<close> returns the individual at a sampled index whose fitness is
  maximal among the sampled ones, and every contestant drawn before it has a strictly
  smaller fitness: among contestants of maximal fitness the first drawn wins. (\<open>g\<close> is the
  value of the fitness function on the individuals of the population.)
\<close>

theorem tournament_selection_first_max:
  assumes fit: "\<forall>x\<in>set (individuals P). fitness P x = Inr (g x)"
      and k: "1 \<le> k" "k \<le> int (length (individuals P))"
      and d: "is_sample (length (individuals P)) (nat k) draw"
  shows "\<exists>p<length draw.
           tournament_selection P k draw = Inr (individuals P ! (draw ! p))
         \<and> draw ! p < length (individuals P)
         \<and> (\<forall>q<length draw. g (individuals P ! (draw ! q)) \<le> g (individuals P ! (draw ! p)))
         \<and> (\<forall>q<p. g (individuals P ! (draw ! q)) < g (individuals P ! (draw ! p)))"
proof -
  from d k have len: "length draw = nat k" and rng: "\<forall>i\<in>set draw. i < length (individuals P)"
    by (auto simp: is_sample_def list_all_iff)
  from len k obtain first rest where dr: "draw = first # rest"
    by (cases draw) auto
  have rs: "random_sample (length (individuals P)) k draw = Inr draw"
    using k by (simp add: random_sample_def)
  have "\<exists>p'<length ([first] @ rest).
           tournament_loop (fitness P) (individuals P) rest ([first] ! 0) = Inr (([first] @ rest) ! p')
         \<and> (\<forall>q<length ([first] @ rest). g (individuals P ! (([first] @ rest) ! q))
               \<le> g (individuals P ! (([first] @ rest) ! p')))
         \<and> (\<forall>q<p'. g (individuals P ! (([first] @ rest) ! q))
               < g (individuals P ! (([first] @ rest) ! p')))"
    by (rule tournament_loop_first_max [where g = g]) (use rng fit dr in auto)
  then obtain p where p: "p < length draw"
      "tournament_loop (fitness P) (individuals P) rest first = Inr (draw ! p)"
      "\<forall>q<length draw. g (individuals P ! (draw ! q)) \<le> g (individuals P ! (draw ! p))"
      "\<forall>q<p. g (individuals P ! (draw ! q)) < g (individuals P ! (draw ! p))"
    unfolding dr by auto
  have "tournament_selection P k draw = Inr (individuals P ! (draw ! p))"
    using rs p(2) by (simp add: tournament_selection_def dr)
  moreover have "draw ! p < length (individuals P)"
    using rng p(1) by simp
  ultimately show ?thesis using p by blast
qed

theorem tournament_selection_first_max_witness:
  "fitness \<lparr>fitness = (\<lambda>x::nat. Inr (x div 2 :: nat)), individuals = [1, 4, 5]\<rparr> 4 = Inr 2
   \<and> fitness \<lparr>fitness = (\<lambda>x::nat. Inr (x div 2 :: nat)), individuals = [1, 4, 5]\<rparr> 5 = Inr 2
   \<and> is_sample (length (individuals \<lparr>fitness = (\<lambda>x::nat. Inr (x div 2 :: nat)),
                                     individuals = [1, 4, 5]\<rparr>)) (nat 3) [2, 0, 1]
   \<and> tournament_selection \<lparr>fitness = (\<lambda>x::nat. Inr (x div 2 :: nat)), individuals = [1, 4, 5]\<rparr>
         3 [2, 0, 1] = Inr 5
   \<and> (\<exists>p<length [2, 0, 1 :: nat].
         tournament_selection \<lparr>fitness = (\<lambda>x::nat. Inr (x div 2 :: nat)), individuals = [1, 4, 5]\<rparr>
           3 [2, 0, 1] = Inr ([1, 4, 5] ! ([2, 0, 1] ! p)))"
proof -
  let ?P = "\<lparr>fitness = (\<lambda>x::nat. Inr (x div 2 :: nat)), individuals = [1, 4, 5 :: nat]\<rparr>"
  have h1: "\<forall>x\<in>set (individuals ?P). fitness ?P x = Inr (x div 2)" by simp
  have h2: "(1::int) \<le> 3" by simp
  have h3: "(3::int) \<le> int (length (individuals ?P))" by simp
  have h4: "is_sample (length (individuals ?P)) (nat 3) [2, 0, 1]"
    by (simp add: is_sample_def)
  have v: "tournament_selection ?P 3 [2, 0, 1] = Inr 5"
    by (simp add: tournament_selection_def random_sample_def)
  from tournament_selection_first_max [OF h1 h2 h3 h4]
  have "\<exists>p<length [2, 0, 1 :: nat].
         tournament_selection ?P 3 [2, 0, 1] = Inr ([1, 4, 5] ! ([2, 0, 1] ! p))"
    by auto
  with h4 v show ?thesis by simp
qed

section \<open>The concrete run, evaluated\<close>

lemma euclid_same_row: "euclid (x1, y) (x2, y) = \<bar>x1 - x2\<bar>"
  by (simp add: euclid_def)

lemma upt_0_2: "[0..<2] = [0, 1]"
  by code_simp

lemma upt_0_4: "[0..<4] = [0, 1, 2, 3]"
  by code_simp

lemma line_fit_short_tour: "line_fit [0, 1, 2, 3] = Inr (- 6)"
  by (simp add: line_fit_def tsp_fitness_creator_def upt_0_4 mat_get_def np_index_def
      calculate_distances_def line_cities_def euclid_same_row)

lemma line_fit_long_tour: "line_fit [0, 2, 1, 3] = Inr (- 8)"
  by (simp add: line_fit_def tsp_fitness_creator_def upt_0_4 mat_get_def np_index_def
      calculate_distances_def line_cities_def euclid_same_row)

lemma line_engine_built:
  "Evolution_init 2 line_fit 30 (1 / 2) (1 / 100) line_inits tsize
     = Inr (line_gen [[0, 2, 1, 3], [0, 1, 2, 3]] tsize)"
  by (simp add: Evolution_init_def Population_init_def list_sort_def upt_0_2
      line_inits_def line_fit_short_tour line_fit_long_tour line_gen_def)

lemma line_first_step:
  "step (line_gen [[0, 2, 1, 3], [0, 1, 2, 3]] 1) (line_rnd 0)
     = Inr (line_gen [[0, 1, 2, 3], [0, 2, 1, 3]] 1, 0)"
  by (simp add: step_def get_best_individual_def line_gen_def line_rnd_def
      tournament_selection_def random_sample_def pair_def cut_points_def mutate_def
      line_fit_short_tour line_fit_long_tour)

lemma line_second_step:
  "step (line_gen [[0, 1, 2, 3], [0, 2, 1, 3]] 1) (line_rnd 1)
     = Inr (line_gen [[0, 2, 1, 3], [0, 2, 1, 3]] 1, 0)"
  by (simp add: step_def get_best_individual_def line_gen_def line_rnd_def
      tournament_selection_def random_sample_def pair_def cut_points_def mutate_def
      line_fit_short_tour line_fit_long_tour)

text \<open>
  Claim C1, evaluated where it fails. The engine is built on the four cities (the pool is
  sorted: fitness \<open>-8\<close>, then \<open>-6\<close>) and takes one step. The step writes the elite followed
  by the offspring back without sorting, so \<open>get_best_individual\<close> returns the offspring
  \<open>[0,2,1,3]\<close> of fitness \<open>-8\<close>, although the population also holds \<open>[0,1,2,3]\<close> of
  fitness \<open>-6\<close>.
\<close>

theorem best_individual_after_step_not_maximal:
  "Evolution_init 2 line_fit 30 (1 / 2) (1 / 100) line_inits 1
     = Inr (line_gen [[0, 2, 1, 3], [0, 1, 2, 3]] 1)
   \<and> step (line_gen [[0, 2, 1, 3], [0, 1, 2, 3]] 1) (line_rnd 0)
     = Inr (line_gen [[0, 1, 2, 3], [0, 2, 1, 3]] 1, 0)
   \<and> individuals (pool (line_gen [[0, 1, 2, 3], [0, 2, 1, 3]] 1)) = [[0, 1, 2, 3], [0, 2, 1, 3]]
   \<and> get_best_individual (pool (line_gen [[0, 1, 2, 3], [0, 2, 1, 3]] 1)) = Inr [0, 2, 1, 3]
   \<and> fitness (pool (line_gen [[0, 1, 2, 3], [0, 2, 1, 3]] 1)) [0, 2, 1, 3] = Inr (- 8)
   \<and> fitness (pool (line_gen [[0, 1, 2, 3], [0, 2, 1, 3]] 1)) [0, 1, 2, 3] = Inr (- 6)
   \<and> (- 8 :: real) < - 6"
  using line_engine_built [of 1] line_first_step
  by (simp add: get_best_individual_def line_gen_def line_fit_short_tour line_fit_long_tour)

text \<open>
  Claim C2, evaluated where it fails. Before the first step the best fitness is \<open>-6\<close>.
  After it, \<open>get_best_individual\<close> has fitness \<open>-8\<close>. The second step takes that last
  individual as its elite, and the tournaments draw it as well: the tour of fitness \<open>-6\<close>
  is gone from the population, in which every individual now has fitness \<open>-8\<close>.
\<close>

theorem best_fitness_regresses_over_steps:
  "get_best_individual (pool (line_gen [[0, 2, 1, 3], [0, 1, 2, 3]] 1)) = Inr [0, 1, 2, 3]
   \<and> line_fit [0, 1, 2, 3] = Inr (- 6)
   \<and> step (line_gen [[0, 2, 1, 3], [0, 1, 2, 3]] 1) (line_rnd 0)
     = Inr (line_gen [[0, 1, 2, 3], [0, 2, 1, 3]] 1, 0)
   \<and> get_best_individual (pool (line_gen [[0, 1, 2, 3], [0, 2, 1, 3]] 1)) = Inr [0, 2, 1, 3]
   \<and> line_fit [0, 2, 1, 3] = Inr (- 8)
   \<and> step (line_gen [[0, 1, 2, 3], [0, 2, 1, 3]] 1) (line_rnd 1)
     = Inr (line_gen [[0, 2, 1, 3], [0, 2, 1, 3]] 1, 0)
   \<and> individuals (pool (line_gen [[0, 2, 1, 3], [0, 2, 1, 3]] 1)) = [[0, 2, 1, 3], [0, 2, 1, 3]]
   \<and> (- 8 :: real) < - 6"
  using line_first_step line_second_step
  by (simp add: get_best_individual_def line_gen_def line_fit_short_tour line_fit_long_tour)

section \<open>Construction and the errors of a step\<close>

lemma eval_keys_total:
  assumes "\<forall>x\<in>set xs. key x = Inr (g x)"
  shows "eval_keys key xs = Inr (map (\<lambda>x. (g x, x)) xs)"
  using assms by (induction xs) simp_all

lemma insort_key_tagged:
  "insort_key fst (g a, a) (map (\<lambda>x. (g x, x)) ys) = map (\<lambda>x. (g x, x)) (insort_key g a ys)"
  by (induction ys) simp_all

lemma sort_key_tagged:
  "sort_key fst (map (\<lambda>x. (g x, x)) xs) = map (\<lambda>x. (g x, x)) (sort_key g xs)"
  by (induction xs) (simp_all add: insort_key_tagged)

lemma list_sort_total:
  assumes "\<forall>x\<in>set xs. key x = Inr (g x)"
  shows "list_sort key xs = Inr (sort_key g xs)"
  by (simp add: list_sort_def eval_keys_total [OF assms] sort_key_tagged comp_def)

lemma list_sort_fails:
  assumes "list_sort key xs = Inr ys"
  shows "\<forall>x\<in>set xs. \<exists>k. key x = Inr k"
  using assms unfolding list_sort_def
proof (induction xs arbitrary: ys)
  case Nil
  then show ?case by simp
next
  case (Cons a xs)
  then show ?case by (auto split: sum.splits)
qed

lemma Population_init_total:
  assumes "\<forall>i<nat psize. fit (new_individual i) = Inr (g (new_individual i))"
  shows "Population_init psize fit new_individual
           = Inr \<lparr>fitness = fit, individuals = sort_key g (map new_individual [0 ..< nat psize])\<rparr>"
proof -
  have "\<forall>x\<in>set (map new_individual [0 ..< nat psize]). fit x = Inr (g x)"
    using assms by auto
  from list_sort_total [OF this] show ?thesis
    by (simp add: Population_init_def)
qed

lemma step_oversized_tournament:
  assumes "2 \<le> length (individuals (pool E))" "int (length (individuals (pool E))) < tournament_size E"
  shows "step E rnd = Inl ValueError"
proof -
  from assms(1) obtain x xs where ne: "individuals (pool E) = x # xs"
    by (cases "individuals (pool E)") auto
  have gb: "get_best_individual (pool E) = Inr (last (individuals (pool E)))"
    by (simp add: get_best_individual_def ne)
  have ts: "tournament_selection (pool E) (tournament_size E) d = Inl ValueError" for d
    using assms(2) by (simp add: tournament_selection_def random_sample_def)
  have "step_loop E rnd [last (individuals (pool E))] 0 = Inl ValueError"
    using assms(1) by (subst step_loop.simps) (simp add: ts Let_def)
  with gb show ?thesis by (simp add: step_def)
qed

lemma step_single_individual:
  assumes "length (individuals (pool E)) = 1"
  shows "step E rnd = Inr (E, 0)"
proof -
  from assms obtain x where one: "individuals (pool E) = [x]"
    by (cases "individuals (pool E)") auto
  have gb: "get_best_individual (pool E) = Inr x"
    by (simp add: get_best_individual_def one)
  have "step_loop E rnd [x] 0 = Inr ([x], 0)"
    by (subst step_loop.simps) (simp add: one)
  with gb one show ?thesis by (simp add: step_def)
qed

lemma step_empty_pool:
  assumes "individuals (pool E) = []"
  shows "step E rnd = Inl IndexError"
  using assms by (simp add: step_def get_best_individual_def)

lemma np_index_in_range:
  assumes "0 \<le> c" "c < int n"
  shows "np_index n c = Inr (nat c)"
  using assms by (simp add: np_index_def)

lemma fitness_loop_total:
  assumes "\<forall>c\<in>set v. 0 \<le> c \<and> c < int (nrows D) \<and> c < int (ncols D)"
      and "\<forall>i\<in>set idxs. i < length v"
  shows "\<exists>l. fitness_loop D v idxs acc = Inr l"
  using assms(2)
proof (induction idxs arbitrary: acc)
  case Nil
  then show ?case by simp
next
  case (Cons i idxs)
  then have i: "i < length v" by simp
  then have j: "(i + 1) mod length v < length v"
    by (metis length_greater_0_conv list.size(3) mod_less_divisor not_less_zero)
  from i j assms(1) have
    "np_index (nrows D) (v ! i) = Inr (nat (v ! i))"
    "np_index (ncols D) (v ! ((i + 1) mod length v)) = Inr (nat (v ! ((i + 1) mod length v)))"
    by (simp_all add: np_index_in_range)
  then have "\<exists>d. mat_get D (v ! i) (v ! ((i + 1) mod length v)) = Inr d"
    by (simp add: mat_get_def)
  then obtain d where d: "mat_get D (v ! i) (v ! ((i + 1) mod length v)) = Inr d" ..
  from Cons.IH [of "acc + d"] Cons.prems show ?case
    using d by (simp add: Let_def)
qed

lemma is_permutation_set:
  assumes "is_permutation n v"
  shows "set v = int ` {0 ..< n}" "length v = n" "distinct v"
proof -
  from assms have s: "sort v = map int [0 ..< n]" by (simp add: is_permutation_def)
  have "set v = set (sort v)" by simp
  also have "\<dots> = int ` {0 ..< n}" unfolding s by simp
  finally show "set v = int ` {0 ..< n}" .
  have "length v = length (sort v)" by simp
  then show "length v = n" unfolding s by simp
  have "distinct (sort v)" unfolding s by (simp add: distinct_map)
  then show "distinct v" by simp
qed

lemma tsp_fitness_total:
  assumes "is_permutation (length cs) v"
  shows "\<exists>f. tsp_fitness_creator (calculate_distances cs) v = Inr f"
proof -
  have "\<forall>c\<in>set v. 0 \<le> c \<and> c < int (nrows (calculate_distances cs))
          \<and> c < int (ncols (calculate_distances cs))"
    using is_permutation_set(1) [OF assms] by (auto simp: calculate_distances_def)
  from fitness_loop_total [OF this, of "[0 ..< length v]" 0]
  obtain l where "fitness_loop (calculate_distances cs) v [0 ..< length v] 0 = Inr l"
    by auto
  then show ?thesis by (simp add: tsp_fitness_creator_def)
qed

text \<open>
  Claim C3, as amended. Nothing is validated when the engine is built: for every population
  size, every tournament size and every list of cities (also fewer than two), construction
  succeeds, given that the generator returns permutations of the city indices. A tournament
  size greater than the population size is reported only by \<open>step\<close>, as the \<^verbatim>\<open>ValueError\<close>
  of the first tournament sample, when the population holds at least two individuals; with
  exactly one individual \<open>step\<close> samples nothing and succeeds; with a population size below
  one \<open>get_best_individual\<close> and \<open>step\<close> raise \<^verbatim>\<open>IndexError\<close>.
\<close>

theorem engine_construction_unchecked:
  assumes "\<forall>i<nat psize. is_permutation (length cs) (inits i)"
  shows "\<exists>E. Evolution_init psize (tsp_fitness_creator (calculate_distances cs))
                n_offs alpha rate inits tsize = Inr E
           \<and> length (individuals (pool E)) = nat psize \<and> tournament_size E = tsize
           \<and> (2 \<le> psize \<and> psize < tsize \<longrightarrow> step E rnd = Inl ValueError)
           \<and> (psize = 1 \<longrightarrow> step E rnd = Inr (E, 0))
           \<and> (psize < 1 \<longrightarrow> get_best_individual (pool E) = Inl IndexError
                              \<and> step E rnd = Inl IndexError)"
proof -
  let ?fit = "tsp_fitness_creator (calculate_distances cs)"
  let ?g = "\<lambda>v. projr (?fit v)"
  have "\<forall>i<nat psize. ?fit (inits i) = Inr (?g (inits i))"
  proof (intro allI impI)
    fix i assume "i < nat psize"
    with assms have "is_permutation (length cs) (inits i)" by simp
    from tsp_fitness_total [OF this] show "?fit (inits i) = Inr (?g (inits i))" by auto
  qed
  from Population_init_total [of psize ?fit inits ?g, OF this]
  have P: "Population_init psize ?fit inits
             = Inr \<lparr>fitness = ?fit, individuals = sort_key ?g (map inits [0 ..< nat psize])\<rparr>" .
  let ?E = "\<lparr>pair_params = alpha, mutate_params = rate,
             pool = \<lparr>fitness = ?fit, individuals = sort_key ?g (map inits [0 ..< nat psize])\<rparr>,
             n_offsprings = n_offs, tournament_size = tsize\<rparr>"
  have E: "Evolution_init psize ?fit n_offs alpha rate inits tsize = Inr ?E"
    by (simp add: Evolution_init_def P)
  have len: "length (individuals (pool ?E)) = nat psize" by simp
  have big: "2 \<le> psize \<and> psize < tsize \<longrightarrow> step ?E rnd = Inl ValueError"
  proof
    assume a: "2 \<le> psize \<and> psize < tsize"
    show "step ?E rnd = Inl ValueError"
    proof (rule step_oversized_tournament)
      from a have "2 \<le> nat psize" by arith
      then show "2 \<le> length (individuals (pool ?E))" by simp
      from a have "int (nat psize) < tsize" by arith
      then show "int (length (individuals (pool ?E))) < tournament_size ?E" by simp
    qed
  qed
  have one: "psize = 1 \<longrightarrow> step ?E rnd = Inr (?E, 0)"
  proof
    assume a: "psize = 1"
    show "step ?E rnd = Inr (?E, 0)"
      by (rule step_single_individual) (use a len in simp)
  qed
  have none: "psize < 1 \<longrightarrow> get_best_individual (pool ?E) = Inl IndexError
                \<and> step ?E rnd = Inl IndexError"
  proof
    assume a: "psize < 1"
    then have "individuals (pool ?E) = []" by simp
    then show "get_best_individual (pool ?E) = Inl IndexError \<and> step ?E rnd = Inl IndexError"
      by (simp add: step_empty_pool get_best_individual_def)
  qed
  from E len big one none show ?thesis by (intro exI [of _ ?E]) simp
qed

lemma line_inits_permutations: "\<forall>i<nat 2. is_permutation (length line_cities) (line_inits i)"
  by (simp add: is_permutation_def line_inits_def line_cities_def upt_0_4)

theorem engine_construction_unchecked_witness:
  "is_permutation (length line_cities) (line_inits 0)
   \<and> is_permutation (length line_cities) (line_inits 1)
   \<and> (\<exists>E. Evolution_init 2 (tsp_fitness_creator (calculate_distances line_cities))
              30 (1 / 2) (1 / 100) line_inits 3 = Inr E
          \<and> length (individuals (pool E)) = nat 2 \<and> tournament_size E = 3
          \<and> step E (line_rnd 0) = Inl ValueError)"
proof -
  have h: "\<forall>i<nat 2. is_permutation (length line_cities) (line_inits i)"
    by (rule line_inits_permutations)
  from engine_construction_unchecked [OF h, of 30 "1 / 2" "1 / 100" 3 "line_rnd 0"]
  obtain E where "Evolution_init 2 (tsp_fitness_creator (calculate_distances line_cities))
              30 (1 / 2) (1 / 100) line_inits 3 = Inr E"
     "length (individuals (pool E)) = nat 2" "tournament_size E = 3"
     "step E (line_rnd 0) = Inl ValueError"
    by auto
  moreover from h have "is_permutation (length line_cities) (line_inits 0)"
    "is_permutation (length line_cities) (line_inits 1)" by simp_all
  ultimately show ?thesis by blast
qed

text \<open>
  Claim C3, evaluated where it fails. With a population of two and a tournament size of
  three the constructor returns an engine; the error is raised by the first \<open>step\<close>, and it
  is the \<^verbatim>\<open>ValueError\<close> of \<^verbatim>\<open>random.sample\<close>.
\<close>

theorem oversized_tournament_raised_by_step:
  "Evolution_init 2 line_fit 30 (1 / 2) (1 / 100) line_inits 3
     = Inr (line_gen [[0, 2, 1, 3], [0, 1, 2, 3]] 3)
   \<and> step (line_gen [[0, 2, 1, 3], [0, 1, 2, 3]] 3) (line_rnd 0) = Inl ValueError"
  using line_engine_built [of 3]
  by (simp add: step_def get_best_individual_def line_gen_def line_rnd_def
      tournament_selection_def random_sample_def)

section \<open>The run orchestration\<close>

lemma get_all_total:
  assumes "\<forall>c\<in>set route. 0 \<le> c \<and> c < int (length xs)"
  shows "get_all xs route = Inr (map (\<lambda>c. xs ! nat c) route)"
  using assms
  by (induction route) (simp_all add: py_get_def np_index_in_range)

lemma plot_route_nonempty:
  assumes "route \<noteq> []"
  shows "plot_route cs route names =
           (case get_all cs route of
              Inl e \<Rightarrow> Inl e
            | Inr coords \<Rightarrow>
                (if names = [] then Inr ()
                 else (case get_all names route of Inl e \<Rightarrow> Inl e | Inr labels \<Rightarrow> Inr ())))"
proof (cases route)
  case Nil
  with assms show ?thesis by simp
next
  case (Cons r rs)
  show ?thesis unfolding Cons by (simp add: plot_route_def split: sum.splits)
qed

lemma plot_route_total:
  assumes "is_permutation (length cs) route" "cs \<noteq> []" "names = [] \<or> length cs \<le> length names"
  shows "plot_route cs route names = Inr ()"
proof -
  have rng: "\<forall>c\<in>set route. 0 \<le> c \<and> c < int (length cs)"
    using is_permutation_set(1) [OF assms(1)] by auto
  have ne: "route \<noteq> []"
    using is_permutation_set(2) [OF assms(1)] assms(2) by auto
  have g1: "get_all cs route = Inr (map (\<lambda>c. cs ! nat c) route)"
    by (rule get_all_total [OF rng])
  show ?thesis
  proof (cases "names = []")
    case True
    with g1 show ?thesis by (simp add: plot_route_nonempty [OF ne])
  next
    case False
    with assms(3) have "\<forall>c\<in>set route. 0 \<le> c \<and> c < int (length names)"
      using rng by auto
    from get_all_total [OF this] g1 False show ?thesis
      by (simp add: plot_route_nonempty [OF ne])
  qed
qed

lemma sort_key_last_in_set:
  assumes "xs \<noteq> []"
  shows "last (sort_key g xs) \<in> set xs"
proof -
  have "sort_key g xs \<noteq> []" using assms by (metis length_sort length_0_conv)
  then have "last (sort_key g xs) \<in> set (sort_key g xs)" by (rule last_in_set)
  then show ?thesis by simp
qed

lemma run_quiet_zero_epochs:
  assumes ep: "n_epochs args = 0" and q: "\<not> verbose args"
      and ps: "1 \<le> population_size args" and nc: "1 \<le> length (cities args)"
      and perms: "\<forall>i<nat (population_size args). is_permutation (length (cities args)) (inits i)"
      and nm: "city_names args = None
                 \<or> (\<exists>ns. city_names args = Some ns \<and> length ns = length (cities args))"
  shows "\<exists>E best f res files.
           Evolution_init (population_size args)
             (tsp_fitness_creator (calculate_distances (cities args)))
             (n_offsprings_arg args) (crossover_alpha args) (mutation_rate args) inits
             (tournament_size_arg args) = Inr E
         \<and> get_best_individual (pool E) = Inr best
         \<and> tsp_fitness_creator (calculate_distances (cities args)) best = Inr f
         \<and> run_tsp_evolution args inits rnd = Inr (res, files)
         \<and> length_history res = [- f] \<and> best_route res = best \<and> best_length res = - f"
proof -
  let ?cs = "cities args"
  let ?fit = "tsp_fitness_creator (calculate_distances ?cs)"
  let ?g = "\<lambda>v. projr (?fit v)"
  let ?n = "nat (population_size args)"
  let ?inds = "sort_key ?g (map inits [0 ..< ?n])"
  have fits: "\<forall>i<?n. ?fit (inits i) = Inr (?g (inits i))"
  proof (intro allI impI)
    fix i assume "i < ?n"
    with perms have "is_permutation (length ?cs) (inits i)" by simp
    from tsp_fitness_total [OF this] show "?fit (inits i) = Inr (?g (inits i))" by auto
  qed
  let ?E = "\<lparr>pair_params = crossover_alpha args, mutate_params = mutation_rate args,
             pool = \<lparr>fitness = ?fit, individuals = ?inds\<rparr>,
             n_offsprings = n_offsprings_arg args, tournament_size = tournament_size_arg args\<rparr>"
  have E: "Evolution_init (population_size args) ?fit (n_offsprings_arg args)
             (crossover_alpha args) (mutation_rate args) inits (tournament_size_arg args) = Inr ?E"
    by (simp add: Evolution_init_def
          Population_init_total [of "population_size args" ?fit inits ?g, OF fits])
  have n_pos: "0 < ?n" using ps by simp
  then have src_ne: "map inits [0 ..< ?n] \<noteq> []" by simp
  then have inds_ne: "?inds \<noteq> []" by (metis length_sort length_0_conv)
  let ?best = "last ?inds"
  have gb: "get_best_individual (pool ?E) = Inr ?best"
    using inds_ne by (simp add: get_best_individual_def split: list.splits)
  have "?best \<in> set (map inits [0 ..< ?n])"
    by (rule sort_key_last_in_set [OF src_ne])
  then obtain i where i: "i < ?n" "?best = inits i" by auto
  with perms have bp: "is_permutation (length ?cs) ?best" by simp
  from tsp_fitness_total [OF bp] obtain f where fb: "?fit ?best = Inr f" by blast
  have cne: "?cs \<noteq> []" using nc by auto
  let ?names = "case city_names args of None \<Rightarrow> map str_nat [0 ..< length ?cs] | Some ns \<Rightarrow> ns"
  have "?names = [] \<or> length ?cs \<le> length ?names"
    using nm by (auto split: option.splits)
  from plot_route_total [OF bp cne this]
  have pl: "plot_route ?cs ?best ?names = Inr ()" .
  let ?res = "\<lparr>best_route = ?best, best_length = - f,
               improvement = (if - f = 0 then None else Some ((- f - - f) / (- f) * 100)),
               length_history = [- f], improvements = 0, last_improvement = 0,
               total_mutations = 0\<rparr>"
  let ?files = "[''results/tsp_final_route.png'', ''results/tsp_length_history.png'']"
  have run: "run_tsp_evolution args inits rnd = Inr (?res, ?files)"
    using q cne ep by (simp add: run_tsp_evolution_def Let_def E gb [simplified] fb pl)
  from E gb fb run show ?thesis
    by (intro exI [of _ ?E] exI [of _ ?best] exI [of _ f] exI [of _ ?res] exI [of _ ?files])
       simp
qed

text \<open>
  The counterpart of the lemma above: with \<open>verbose\<close> set, a run of zero epochs never
  returns, whatever its other arguments are.
\<close>

lemma run_verbose_zero_epochs_raises:
  assumes "verbose args" "n_epochs args = 0"
  shows "\<exists>e. run_tsp_evolution args inits rnd = Inl e"
  using assms
  by (auto simp: run_tsp_evolution_def Let_def split: sum.splits if_splits prod.splits)

lemma line_plot:
  "plot_route line_cities [0, 1, 2, 3] (map str_nat [0 ..< 4]) = Inr ()"
  by (simp add: plot_route_def py_get_def np_index_def line_cities_def upt_0_4)

lemma line_cities_length: "length line_cities = 4" "line_cities \<noteq> []"
  by (simp_all add: line_cities_def)

lemma line_run_verbose:
  "run_tsp_evolution
     ((default_args line_cities)\<lparr>population_size := 2, tournament_size_arg := 1, n_epochs := 0\<rparr>)
     line_inits line_rnd = Inl ZeroDivisionError"
  by (simp add: run_tsp_evolution_def default_args_def line_engine_built [unfolded line_fit_def]
        get_best_individual_def line_gen_def line_fit_short_tour line_plot Let_def
        line_cities_length)




text \<open>
  Claim C8, evaluated where it fails. The four cities, a population of two, \<open>n_epochs = 0\<close>
  and every other argument at its default, so \<open>verbose\<close> is true: the run does not return a
  result. Formatting the summary line divides \<open>total_mutations\<close> by \<open>n_epochs\<close>, and the run
  ends in \<^verbatim>\<open>ZeroDivisionError\<close>. (With \<open>verbose\<close> false the same input returns the
  one-entry history, as lemma \<open>run_quiet_zero_epochs\<close> shows in general.)
\<close>

theorem zero_epochs_default_run_raises:
  "verbose ((default_args line_cities)\<lparr>population_size := 2, tournament_size_arg := 1,
              n_epochs := 0\<rparr>)
   \<and> run_tsp_evolution
       ((default_args line_cities)\<lparr>population_size := 2, tournament_size_arg := 1,
          n_epochs := 0\<rparr>)
       line_inits line_rnd = Inl ZeroDivisionError"
  using line_run_verbose by (simp add: default_args_def)




end
